theory Spec2Isabelle
  imports
    Main
    "HOL-Library.Char_ord"
    "HOL-Library.List_Lexorder"
    "HOL-Library.Product_Lexorder"
    "HOL-Library.Multiset"
begin

section \<open>The xiDIS deployment orchestrator (deploy.py)\<close>

text \<open>
  The script parses its command line, sets up logging, loads and validates a JSON
  configuration and then calls the phase functions of the table \<open>PHASES\<close>.  Every
  phase function of the source is a placeholder that writes one log record.  The
  model keeps the process state explicit: the logging configuration and the
  records that reached each log handler.  An exception is an \<open>error\<close> returned
  together with the state reached when it was raised.
\<close>

subsection \<open>Values\<close>

text \<open>A parsed JSON document (\<open>Dict[str, Any]\<close> in the source).\<close>

datatype json =
    JNull
  | JBool bool
  | JNum int
  | JStr string
  | JArr "json list"
  | JObj "(string \<times> json) list"

text \<open>
  The exceptions that can leave \<open>main\<close>.  \<open>ArgparseError\<close> is the exit of
  \<open>parser.error\<close> (status 2), with the option and the value it complains about.
  \<open>ReadError\<close> is whatever \<open>path.read_text()\<close> raises: an OSError where the file
  cannot be opened or read, a UnicodeDecodeError where its bytes are not text.
\<close>

datatype usage_error =
    InvalidChoice string string
  | RequiredMissing string

datatype error =
    ArgparseError usage_error
  | ReadError
  | JSONDecodeError
  | TypeError
  | KeyError string
  | ValidationError string

subsection \<open>Logging\<close>

text \<open>
  A log record keeps the format string and its arguments apart, as
  \<open>logging.LogRecord\<close> does; the time stamp of the JSONL handler is left out.
\<close>

datatype log_arg = AStr string | AList "string list"

record log_record =
  level :: nat
  msg :: string
  args :: "log_arg list"

datatype handler = Console | JsonlFile | BasicConfig

definition DEBUG :: nat where "DEBUG = 10"
definition INFO :: nat where "INFO = 20"
definition WARNING :: nat where "WARNING = 30"

text \<open>
  The state that the program changes: the level of the root logger, its
  handlers with their levels, and the records handed to each handler so far.
  The records of \<open>JsonlFile\<close> are the lines written to \<open>deploy.jsonl\<close>.
\<close>

record world =
  root_level :: nat
  handlers :: "(handler \<times> nat) list"
  emitted :: "(handler \<times> log_record) list"

text \<open>The state of a process that has just started: the root logger is at WARNING
  and has no handler.\<close>

definition process_start :: world where
  "process_start = \<lparr>root_level = WARNING, handlers = [], emitted = []\<rparr>"

text \<open>
  \<open>logging.info\<close> and \<open>logging.warning\<close> of the module \<open>logging\<close>: with no handler
  on the root logger \<open>basicConfig()\<close> installs one first; the record is dropped
  below the root level and otherwise handed to every handler whose own level
  admits it, in the order the handlers were added.
\<close>

definition logging_log :: "nat \<Rightarrow> string \<Rightarrow> log_arg list \<Rightarrow> world \<Rightarrow> world" where
  "logging_log lvl m as w =
     (let w1 = (if handlers w = [] then w\<lparr>handlers := [(BasicConfig, 0)]\<rparr> else w) in
      if lvl < root_level w1 then w1
      else w1\<lparr>emitted := emitted w1 @
                 map (\<lambda>hl. (fst hl, \<lparr>level = lvl, msg = m, args = as\<rparr>))
                     (filter (\<lambda>hl. snd hl \<le> lvl) (handlers w1))\<rparr>)"

definition logging_info :: "string \<Rightarrow> log_arg list \<Rightarrow> world \<Rightarrow> world" where
  "logging_info = logging_log INFO"

definition logging_warning :: "string \<Rightarrow> log_arg list \<Rightarrow> world \<Rightarrow> world" where
  "logging_warning = logging_log WARNING"

text \<open>
  \<open>setup_logging\<close>: the root level and the two handlers.  It also creates the
  directory \<open>logs/<date>\<close> and opens \<open>deploy.jsonl\<close> in it; the model takes both to
  succeed and keeps of the file only the records written to it.
\<close>

definition setup_logging :: "bool \<Rightarrow> world \<Rightarrow> world" where
  "setup_logging verbose w =
     w\<lparr>root_level := (if verbose then DEBUG else INFO),
       handlers := handlers w @
         [(Console, if \<not> verbose then INFO else DEBUG), (JsonlFile, DEBUG)]\<rparr>"

text \<open>The records that reached one handler, in order.\<close>

definition records_of :: "handler \<Rightarrow> world \<Rightarrow> log_record list" where
  "records_of h w = map snd (filter (\<lambda>p. fst p = h) (emitted w))"

subsection \<open>Loading the configuration\<close>

text \<open>
  A validation error of \<open>jsonschema\<close>: the path into the document (object keys
  and array indices) and the message.
\<close>

datatype path_elem = Key string | Index int

record verror =
  path :: "path_elem list"
  message :: string

text \<open>
  The file system, \<open>json.loads\<close> and the validator built from
  \<open>config_schema.json\<close> are taken from the environment: \<open>read_text\<close> is \<open>None\<close>
  where reading the file raises, \<open>json_loads\<close> is \<open>None\<close> where the text is not
  JSON, \<open>iter_errors\<close> lists the schema violations of a document.
\<close>

record env =
  read_text :: "string \<Rightarrow> string option"
  json_loads :: "string \<Rightarrow> json option"
  iter_errors :: "json \<Rightarrow> verror list"

text \<open>\<open>str\<close> of a path element; \<open>str_nat\<close> writes a natural number in decimal.\<close>

function str_nat :: "nat \<Rightarrow> string" where
  "str_nat n =
     (if n < 10 then [''0123456789'' ! n]
      else str_nat (n div 10) @ [''0123456789'' ! (n mod 10)])"
  by pat_completeness auto
termination
  by (relation "measure id") auto

declare str_nat.simps [simp del]

definition str_int :: "int \<Rightarrow> string" where
  "str_int i = (if i < 0 then ''-'' @ str_nat (nat (- i)) else str_nat (nat i))"

fun str_elem :: "path_elem \<Rightarrow> string" where
  "str_elem (Key s) = s"
| "str_elem (Index i) = str_int i"

text \<open>\<open>sep.join(xs)\<close>.\<close>

fun join :: "string \<Rightarrow> string list \<Rightarrow> string" where
  "join sep [] = []"
| "join sep [x] = x"
| "join sep (x # y # ys) = x @ sep @ join sep (y # ys)"

text \<open>
  \<open>sorted(errors, key=lambda e: e.path)\<close> compares paths element by element.
  Python compares the first pair of elements that differ and raises TypeError
  when one is a string and the other an integer; \<open>paths_comparable\<close> says that
  this does not happen.  A list that holds two such paths also holds two that
  are neighbours in sorted order, and a sort compares neighbours, so the sort
  raises exactly when the list holds such a pair.  On comparable paths the
  order is the lexicographic one, which \<open>sort_rank\<close> expresses in a linear order
  of HOL; \<open>sort_key\<close> is stable, as \<open>sorted\<close> is.
\<close>

fun same_kind :: "path_elem \<Rightarrow> path_elem \<Rightarrow> bool" where
  "same_kind (Key a) (Key b) = True"
| "same_kind (Index a) (Index b) = True"
| "same_kind a b = False"

fun paths_comparable :: "path_elem list \<Rightarrow> path_elem list \<Rightarrow> bool" where
  "paths_comparable (x # xs) (y # ys) =
     (if x = y then paths_comparable xs ys else same_kind x y)"
| "paths_comparable xs ys = True"

fun sort_rank :: "path_elem \<Rightarrow> nat \<times> int \<times> string" where
  "sort_rank (Index i) = (0, i, [])"
| "sort_rank (Key s) = (1, 0, s)"

definition sorted_by_path :: "verror list \<Rightarrow> verror list option" where
  "sorted_by_path errors =
     (if list_all (\<lambda>a. list_all (\<lambda>b. paths_comparable (path a) (path b)) errors) errors
      then Some (sort_key (\<lambda>e. map sort_rank (path e)) errors)
      else None)"

text \<open>One entry of the message: \<open>f"{'/'.join(map(str, e.path))}: {e.message}"\<close>.\<close>

definition error_line :: "verror \<Rightarrow> string" where
  "error_line e = join ''/'' (map str_elem (path e)) @ '': '' @ message e"

definition load_config :: "env \<Rightarrow> string \<Rightarrow> error + json" where
  "load_config e p =
     (case read_text e p of
        None \<Rightarrow> Inl ReadError
      | Some text \<Rightarrow>
          (case json_loads e text of
             None \<Rightarrow> Inl JSONDecodeError
           | Some data \<Rightarrow>
               (case sorted_by_path (iter_errors e data) of
                  None \<Rightarrow> Inl TypeError
                | Some errors \<Rightarrow>
                    if errors \<noteq> []
                    then Inl (ValidationError (join ''; '' (map error_line errors)))
                    else Inr data)))"

subsection \<open>The pipeline\<close>

record Context =
  config :: json
  limit :: "string list option"
  dry_run :: bool

text \<open>A phase callable: it may change the state and may raise.\<close>

type_synonym phase_fn = "Context \<Rightarrow> world \<Rightarrow> error option \<times> world"

text \<open>\<open>ctx.limit or "all"\<close>: an empty list counts as false, as \<open>None\<close> does.\<close>

definition limit_or_all :: "Context \<Rightarrow> log_arg" where
  "limit_or_all ctx =
     (case limit ctx of
        None \<Rightarrow> AStr ''all''
      | Some hs \<Rightarrow> if hs = [] then AStr ''all'' else AList hs)"

definition phase_precheck :: phase_fn where
  "phase_precheck ctx w =
     (None, logging_info ''precheck phase for hosts: %s'' [limit_or_all ctx] w)"

definition phase_storage :: phase_fn where
  "phase_storage ctx w = (None, logging_info ''storage_export phase'' [] w)"

definition phase_agg :: phase_fn where
  "phase_agg ctx w = (None, logging_info ''aggregator_connect phase'' [] w)"

definition phase_raid :: phase_fn where
  "phase_raid ctx w = (None, logging_info ''opus_raid phase'' [] w)"

definition phase_reexport :: phase_fn where
  "phase_reexport ctx w = (None, logging_info ''reexport phase'' [] w)"

definition phase_verify :: phase_fn where
  "phase_verify ctx w = (None, logging_info ''verify phase'' [] w)"

text \<open>The table \<open>PHASES\<close>; a Python dict keeps the order of insertion.\<close>

definition PHASES :: "(string \<times> phase_fn) list" where
  "PHASES =
     [(''precheck'', phase_precheck),
      (''storage'', phase_storage),
      (''agg'', phase_agg),
      (''raid'', phase_raid),
      (''reexport'', phase_reexport),
      (''verify'', phase_verify)]"

text \<open>
  The loop \<open>for fn in PHASES.values(): fn(ctx)\<close> of \<open>main\<close>, over any list of
  phase callables: an exception leaves the loop at once.
\<close>

fun run_phases :: "phase_fn list \<Rightarrow> Context \<Rightarrow> world \<Rightarrow> error option \<times> world" where
  "run_phases [] ctx w = (None, w)"
| "run_phases (fn # fns) ctx w =
     (case fn ctx w of
        (Some e, w') \<Rightarrow> (Some e, w')
      | (None, w') \<Rightarrow> run_phases fns ctx w')"

subsection \<open>The command line\<close>

text \<open>
  The options of a command line in the order they are given, as \<open>argparse\<close>
  recognises them; the splitting of \<open>argv\<close> into options and values is that of
  the library.
\<close>

datatype opt =
    OptConfig string
  | OptLimit string
  | OptPhase string
  | OptDryRun
  | OptVerbose
  | OptTeardown

record Namespace =
  ns_config :: "string option"
  ns_limit :: "string option"
  ns_phase :: "string option"
  ns_dry_run :: bool
  ns_verbose :: bool
  ns_teardown :: bool

definition defaults :: Namespace where
  "defaults = \<lparr>ns_config = None, ns_limit = None, ns_phase = None,
                ns_dry_run = False, ns_verbose = False, ns_teardown = False\<rparr>"

text \<open>
  One option is stored in the namespace; a later occurrence replaces an earlier
  one.  The value of \<open>--phase\<close> is checked against \<open>choices\<close> when it is read.
\<close>

fun consume :: "opt \<Rightarrow> Namespace \<Rightarrow> error + Namespace" where
  "consume (OptConfig p) ns = Inr (ns\<lparr>ns_config := Some p\<rparr>)"
| "consume (OptLimit l) ns = Inr (ns\<lparr>ns_limit := Some l\<rparr>)"
| "consume (OptPhase k) ns =
     (if k \<in> set (map fst PHASES) then Inr (ns\<lparr>ns_phase := Some k\<rparr>)
      else Inl (ArgparseError (InvalidChoice ''--phase'' k)))"
| "consume OptDryRun ns = Inr (ns\<lparr>ns_dry_run := True\<rparr>)"
| "consume OptVerbose ns = Inr (ns\<lparr>ns_verbose := True\<rparr>)"
| "consume OptTeardown ns = Inr (ns\<lparr>ns_teardown := True\<rparr>)"

fun consume_all :: "opt list \<Rightarrow> Namespace \<Rightarrow> error + Namespace" where
  "consume_all [] ns = Inr ns"
| "consume_all (x # xs) ns =
     (case consume x ns of Inl e \<Rightarrow> Inl e | Inr ns' \<Rightarrow> consume_all xs ns')"

text \<open>\<open>--config\<close> is required; that is checked after all options are read.\<close>

definition parse_args :: "opt list \<Rightarrow> error + Namespace" where
  "parse_args argv =
     (case consume_all argv defaults of
        Inl e \<Rightarrow> Inl e
      | Inr ns \<Rightarrow>
          if ns_config ns = None
          then Inl (ArgparseError (RequiredMissing ''--config''))
          else Inr ns)"

subsection \<open>The entry point\<close>

text \<open>\<open>s.split(",")\<close>.\<close>

fun split_comma :: "string \<Rightarrow> string list" where
  "split_comma [] = [[]]"
| "split_comma (c # cs) =
     (if c = CHR '','' then [] # split_comma cs
      else (case split_comma cs of [] \<Rightarrow> [[c]] | p # ps \<Rightarrow> (c # p) # ps))"

text \<open>\<open>args.limit.split(",") if args.limit else None\<close>.\<close>

definition limit_of :: "Namespace \<Rightarrow> string list option" where
  "limit_of a =
     (case ns_limit a of
        None \<Rightarrow> None
      | Some l \<Rightarrow> if l \<noteq> [] then Some (split_comma l) else None)"

definition make_context :: "json \<Rightarrow> Namespace \<Rightarrow> Context" where
  "make_context cfg a = \<lparr>config = cfg, limit = limit_of a, dry_run = ns_dry_run a\<rparr>"

text \<open>The phase calls of \<open>main\<close>: the selected phase, or all of them in table order.\<close>

definition dispatch :: "Namespace \<Rightarrow> Context \<Rightarrow> world \<Rightarrow> error option \<times> world" where
  "dispatch a ctx w =
     (case ns_phase a of
        None \<Rightarrow> run_phases (map snd PHASES) ctx w
      | Some k \<Rightarrow>
          if k \<noteq> [] then
            (case map_of PHASES k of
               None \<Rightarrow> (Some (KeyError k), w)
             | Some fn \<Rightarrow> fn ctx w)
          else run_phases (map snd PHASES) ctx w)"

definition main :: "env \<Rightarrow> opt list \<Rightarrow> world \<Rightarrow> error option \<times> world" where
  "main e argv w =
     (case parse_args argv of
        Inl err \<Rightarrow> (Some err, w)
      | Inr a \<Rightarrow>
          (let w1 = setup_logging (ns_verbose a) w in
           case ns_config a of
             None \<Rightarrow> (Some TypeError, w1)
           | Some p \<Rightarrow>
               (case load_config e p of
                  Inl err \<Rightarrow> (Some err, w1)
                | Inr cfg \<Rightarrow>
                    (case dispatch a (make_context cfg a) w1 of
                       (Some err, w2) \<Rightarrow> (Some err, w2)
                     | (None, w2) \<Rightarrow>
                         (None,
                          if ns_teardown a
                          then logging_warning ''teardown mode is not yet implemented'' [] w2
                          else w2)))))"

subsection \<open>The vocabulary of the specification\<close>

text \<open>
  The source never reads the loaded document.  The specification speaks of the
  hosts of a configuration and of references between its entities; these
  functions read both off a document whose \<open>hosts\<close> and \<open>raidGroups\<close> are arrays of
  objects with an \<open>id\<close>, a RAID group listing its \<open>members\<close> by id.  They are used
  to state properties only; no definition of the program calls them.
\<close>

fun obj_field :: "string \<Rightarrow> json \<Rightarrow> json" where
  "obj_field k (JObj kvs) = (case map_of kvs k of None \<Rightarrow> JNull | Some v \<Rightarrow> v)"
| "obj_field k d = JNull"

fun items :: "json \<Rightarrow> json list" where
  "items (JArr xs) = xs"
| "items d = []"

fun str_of :: "json \<Rightarrow> string list" where
  "str_of (JStr s) = [s]"
| "str_of d = []"

definition spec_host_ids :: "json \<Rightarrow> string list" where
  "spec_host_ids d =
     concat (map (\<lambda>h. str_of (obj_field ''id'' h)) (items (obj_field ''hosts'' d)))"

definition spec_member_refs :: "json \<Rightarrow> string list" where
  "spec_member_refs d =
     concat (map (\<lambda>g. concat (map str_of (items (obj_field ''members'' g))))
                 (items (obj_field ''raidGroups'' d)))"

definition spec_dangling_refs :: "json \<Rightarrow> string list" where
  "spec_dangling_refs d =
     filter (\<lambda>r. \<not> List.member (spec_host_ids d) r) (spec_member_refs d)"

subsection \<open>A site to run on\<close>

text \<open>
  Three configuration files.  \<open>fabric.json\<close> is well formed.  \<open>dangling.json\<close>
  has the same shape, but its RAID group names a member \<open>sn9\<close> that is no host.
  \<open>broken.json\<close> violates the schema in three places.  The validator of the site
  reports those three violations, in the order it finds them, and none for the
  other documents.
\<close>

definition fabric_json :: json where
  "fabric_json =
     JObj [(''hosts'',
            JArr [JObj [(''id'', JStr ''sn1''), (''role'', JStr ''storage'')],
                  JObj [(''id'', JStr ''agg1''), (''role'', JStr ''aggregator'')]]),
           (''raidGroups'',
            JArr [JObj [(''id'', JStr ''rg0''), (''members'', JArr [JStr ''sn1''])]])]"

definition dangling_json :: json where
  "dangling_json =
     JObj [(''hosts'',
            JArr [JObj [(''id'', JStr ''sn1''), (''role'', JStr ''storage'')],
                  JObj [(''id'', JStr ''agg1''), (''role'', JStr ''aggregator'')]]),
           (''raidGroups'',
            JArr [JObj [(''id'', JStr ''rg0''),
                        (''members'', JArr [JStr ''sn1'', JStr ''sn9''])]])]"

definition broken_json :: json where
  "broken_json =
     JObj [(''hosts'',
            JArr [JObj [(''role'', JStr ''storage'')],
                  JObj [(''id'', JStr ''agg1''), (''role'', JStr ''tape'')]])]"

definition broken_errors :: "verror list" where
  "broken_errors =
     [\<lparr>path = [Key ''hosts'', Index 1, Key ''role''],
       message = ''tape is not one of storage, aggregator, both''\<rparr>,
      \<lparr>path = [], message = ''raidGroups is a required property''\<rparr>,
      \<lparr>path = [Key ''hosts'', Index 0], message = ''id is a required property''\<rparr>]"

definition site :: env where
  "site =
     \<lparr>read_text = (\<lambda>p.
          if p = ''fabric.json'' then Some ''text of fabric.json''
          else if p = ''dangling.json'' then Some ''text of dangling.json''
          else if p = ''broken.json'' then Some ''text of broken.json''
          else None),
      json_loads = (\<lambda>t.
          if t = ''text of fabric.json'' then Some fabric_json
          else if t = ''text of dangling.json'' then Some dangling_json
          else if t = ''text of broken.json'' then Some broken_json
          else None),
      iter_errors = (\<lambda>d. if d = broken_json then broken_errors else [])\<rparr>"

section \<open>Properties\<close>

subsection \<open>Logging after \<open>setup_logging\<close>\<close>

lemmas phase_defs = phase_precheck_def phase_storage_def phase_agg_def phase_raid_def
  phase_reexport_def phase_verify_def

lemma setup_start:
  "setup_logging v process_start =
     \<lparr>root_level = (if v then DEBUG else INFO),
      handlers = [(Console, if \<not> v then INFO else DEBUG), (JsonlFile, DEBUG)],
      emitted = []\<rparr>"
  by (simp add: setup_logging_def process_start_def)

text \<open>With the two handlers installed, a record at INFO or above reaches both.\<close>

lemma log_after_setup:
  assumes "lvl = INFO \<or> lvl = WARNING"
  shows "logging_log lvl m as
           \<lparr>root_level = (if v then DEBUG else INFO),
            handlers = [(Console, if \<not> v then INFO else DEBUG), (JsonlFile, DEBUG)],
            emitted = es\<rparr> =
         \<lparr>root_level = (if v then DEBUG else INFO),
          handlers = [(Console, if \<not> v then INFO else DEBUG), (JsonlFile, DEBUG)],
          emitted = es @ [(Console, \<lparr>level = lvl, msg = m, args = as\<rparr>),
                          (JsonlFile, \<lparr>level = lvl, msg = m, args = as\<rparr>)]\<rparr>"
  using assms by (auto simp: logging_log_def INFO_def DEBUG_def WARNING_def)

lemmas info_after_setup =
  log_after_setup [where lvl = INFO, simplified, folded logging_info_def]

lemmas warning_after_setup =
  log_after_setup [where lvl = WARNING, simplified, folded logging_warning_def]

subsection \<open>The whole table, run from a fresh process\<close>

lemma run_all_start:
  "run_phases (map snd PHASES) ctx (setup_logging v process_start) =
   (None,
    \<lparr>root_level = (if v then DEBUG else INFO),
     handlers = [(Console, if \<not> v then INFO else DEBUG), (JsonlFile, DEBUG)],
     emitted = concat (map (\<lambda>r. [(Console, r), (JsonlFile, r)])
       [\<lparr>level = INFO, msg = ''precheck phase for hosts: %s'', args = [limit_or_all ctx]\<rparr>,
        \<lparr>level = INFO, msg = ''storage_export phase'', args = []\<rparr>,
        \<lparr>level = INFO, msg = ''aggregator_connect phase'', args = []\<rparr>,
        \<lparr>level = INFO, msg = ''opus_raid phase'', args = []\<rparr>,
        \<lparr>level = INFO, msg = ''reexport phase'', args = []\<rparr>,
        \<lparr>level = INFO, msg = ''verify phase'', args = []\<rparr>])\<rparr>)"
  by (simp add: PHASES_def phase_defs setup_start info_after_setup)

lemma main_valid:
  assumes "parse_args argv = Inr a" and "ns_config a = Some p"
    and "load_config e p = Inr cfg"
  shows "main e argv w =
     (case dispatch a (make_context cfg a) (setup_logging (ns_verbose a) w) of
        (Some err, w2) \<Rightarrow> (Some err, w2)
      | (None, w2) \<Rightarrow>
          (None, if ns_teardown a
                 then logging_warning ''teardown mode is not yet implemented'' [] w2
                 else w2))"
  using assms by (simp add: main_def Let_def)

lemma dispatch_all:
  "ns_phase a = None \<Longrightarrow> dispatch a ctx w = run_phases (map snd PHASES) ctx w"
  by (simp add: dispatch_def)

text \<open>A run over the whole table from a fresh process, in full.\<close>

lemma main_all_start:
  assumes "parse_args argv = Inr a" and "ns_config a = Some p"
    and "load_config e p = Inr cfg" and "ns_phase a = None"
  shows "main e argv process_start =
   (None,
    \<lparr>root_level = (if ns_verbose a then DEBUG else INFO),
     handlers = [(Console, if \<not> ns_verbose a then INFO else DEBUG), (JsonlFile, DEBUG)],
     emitted = concat (map (\<lambda>r. [(Console, r), (JsonlFile, r)])
       ([\<lparr>level = INFO, msg = ''precheck phase for hosts: %s'',
          args = [limit_or_all (make_context cfg a)]\<rparr>,
         \<lparr>level = INFO, msg = ''storage_export phase'', args = []\<rparr>,
         \<lparr>level = INFO, msg = ''aggregator_connect phase'', args = []\<rparr>,
         \<lparr>level = INFO, msg = ''opus_raid phase'', args = []\<rparr>,
         \<lparr>level = INFO, msg = ''reexport phase'', args = []\<rparr>,
         \<lparr>level = INFO, msg = ''verify phase'', args = []\<rparr>] @
        (if ns_teardown a
         then [\<lparr>level = WARNING, msg = ''teardown mode is not yet implemented'',
                args = []\<rparr>]
         else [])))\<rparr>)"
  using assms
  by (simp add: main_valid dispatch_all run_all_start warning_after_setup)

subsection \<open>The files of the site\<close>

lemma load_fabric: "load_config site ''fabric.json'' = Inr fabric_json"
  by (simp add: load_config_def site_def sorted_by_path_def fabric_json_def broken_json_def)

lemma load_dangling: "load_config site ''dangling.json'' = Inr dangling_json"
  by (simp add: load_config_def site_def sorted_by_path_def dangling_json_def broken_json_def)

subsection \<open>Order of the phases\<close>

text \<open>
  Claim C6.  The forward sequence is precheck, storage_export, aggregator_connect,
  opus_raid, reexport, verify: a run whose command line parses, selects no phase,
  does not ask for teardown and names a configuration that loads, returns
  normally, and the records that reach the console and the JSONL file are those of
  the six phases in that order.
\<close>

theorem forward_run_order:
  assumes "parse_args argv = Inr a" and "ns_config a = Some p"
    and "load_config e p = Inr cfg"
    and "ns_phase a = None" and "\<not> ns_teardown a"
  shows "fst (main e argv process_start) = None \<and>
         map msg (records_of Console (snd (main e argv process_start))) =
           [''precheck phase for hosts: %s'', ''storage_export phase'',
            ''aggregator_connect phase'', ''opus_raid phase'',
            ''reexport phase'', ''verify phase''] \<and>
         map msg (records_of JsonlFile (snd (main e argv process_start))) =
           [''precheck phase for hosts: %s'', ''storage_export phase'',
            ''aggregator_connect phase'', ''opus_raid phase'',
            ''reexport phase'', ''verify phase'']"
  using assms by (simp add: main_all_start records_of_def)

theorem forward_run_order_witness:
  "parse_args [OptConfig ''fabric.json'', OptVerbose] =
     Inr (defaults\<lparr>ns_config := Some ''fabric.json'', ns_verbose := True\<rparr>) \<and>
   load_config site ''fabric.json'' = Inr fabric_json \<and>
   fst (main site [OptConfig ''fabric.json'', OptVerbose] process_start) = None \<and>
   map msg (records_of Console
              (snd (main site [OptConfig ''fabric.json'', OptVerbose] process_start))) =
     [''precheck phase for hosts: %s'', ''storage_export phase'',
      ''aggregator_connect phase'', ''opus_raid phase'',
      ''reexport phase'', ''verify phase'']"
  using forward_run_order
    [of "[OptConfig ''fabric.json'', OptVerbose]"
        "defaults\<lparr>ns_config := Some ''fabric.json'', ns_verbose := True\<rparr>"
        "''fabric.json''" site fabric_json]
  by (simp add: parse_args_def defaults_def load_fabric)

text \<open>
  Claim C1, as stated: a teardown run calls the revert actions in the order
  reexport, opus_raid, aggregator_connect, storage_export.  The run
  \<open>--config fabric.json --teardown\<close> calls the six phases in forward order instead
  and then logs the warning.
\<close>

theorem teardown_reverse_order_counterexample:
  "map msg (records_of Console
              (snd (main site [OptConfig ''fabric.json'', OptTeardown] process_start))) =
     [''precheck phase for hosts: %s'', ''storage_export phase'',
      ''aggregator_connect phase'', ''opus_raid phase'',
      ''reexport phase'', ''verify phase'',
      ''teardown mode is not yet implemented''] \<and>
   map msg (records_of Console
              (snd (main site [OptConfig ''fabric.json'', OptTeardown] process_start))) \<noteq>
     [''reexport phase'', ''opus_raid phase'', ''aggregator_connect phase'',
      ''storage_export phase'']"
proof -
  have "parse_args [OptConfig ''fabric.json'', OptTeardown] =
          Inr (defaults\<lparr>ns_config := Some ''fabric.json'', ns_teardown := True\<rparr>)"
    by (simp add: parse_args_def defaults_def)
  then show ?thesis
    by (simp add: main_all_start [where p = "''fabric.json''" and cfg = fabric_json]
        load_fabric defaults_def records_of_def)
qed

text \<open>
  Claim C1, amended.  A teardown run that selects no phase calls the six phases
  in forward order, verify included, and then logs the warning that teardown is
  not implemented; nothing is reverted.
\<close>

theorem teardown_runs_forward:
  assumes "parse_args argv = Inr a" and "ns_config a = Some p"
    and "load_config e p = Inr cfg"
    and "ns_phase a = None" and "ns_teardown a"
  shows "fst (main e argv process_start) = None \<and>
         map msg (records_of Console (snd (main e argv process_start))) =
           [''precheck phase for hosts: %s'', ''storage_export phase'',
            ''aggregator_connect phase'', ''opus_raid phase'',
            ''reexport phase'', ''verify phase'',
            ''teardown mode is not yet implemented''] \<and>
         map msg (records_of JsonlFile (snd (main e argv process_start))) =
           [''precheck phase for hosts: %s'', ''storage_export phase'',
            ''aggregator_connect phase'', ''opus_raid phase'',
            ''reexport phase'', ''verify phase'',
            ''teardown mode is not yet implemented'']"
  using assms by (simp add: main_all_start records_of_def)

theorem teardown_runs_forward_witness:
  "parse_args [OptTeardown, OptConfig ''fabric.json'', OptLimit ''sn1''] =
     Inr (defaults\<lparr>ns_config := Some ''fabric.json'', ns_limit := Some ''sn1'',
                   ns_teardown := True\<rparr>) \<and>
   load_config site ''fabric.json'' = Inr fabric_json \<and>
   map msg (records_of Console
     (snd (main site [OptTeardown, OptConfig ''fabric.json'', OptLimit ''sn1'']
             process_start))) =
     [''precheck phase for hosts: %s'', ''storage_export phase'',
      ''aggregator_connect phase'', ''opus_raid phase'',
      ''reexport phase'', ''verify phase'',
      ''teardown mode is not yet implemented'']"
  using teardown_runs_forward
    [of "[OptTeardown, OptConfig ''fabric.json'', OptLimit ''sn1'']"
        "defaults\<lparr>ns_config := Some ''fabric.json'', ns_limit := Some ''sn1'',
                   ns_teardown := True\<rparr>"
        "''fabric.json''" site fabric_json]
  by (simp add: parse_args_def defaults_def load_fabric)

subsection \<open>The flags \<open>--teardown\<close> and \<open>--dry-run\<close> in the parser\<close>






lemma consume_dry_run_upd:
  "consume x (ns\<lparr>ns_dry_run := c\<rparr>) =
     (case consume x ns of
        Inl err \<Rightarrow> Inl err
      | Inr a \<Rightarrow> Inr (a\<lparr>ns_dry_run := (c \<or> x = OptDryRun)\<rparr>))"
  by (cases x; cases ns) simp_all

lemma consume_all_dry_run_upd:
  "consume_all xs (ns\<lparr>ns_dry_run := c\<rparr>) =
     (case consume_all xs ns of
        Inl err \<Rightarrow> Inl err
      | Inr a \<Rightarrow> Inr (a\<lparr>ns_dry_run := (c \<or> OptDryRun \<in> set xs)\<rparr>))"
proof (induction xs arbitrary: ns c)
  case Nil
  then show ?case by simp
next
  case (Cons x xs)
  show ?case
  proof (cases "consume x ns")
    case (Inl err)
    then show ?thesis by (simp add: consume_dry_run_upd)
  next
    case (Inr ns')
    have "(c \<or> x = OptDryRun \<or> OptDryRun \<in> set xs) =
          (c \<or> OptDryRun \<in> set (x # xs))"
      by auto
    with Inr show ?thesis
      using Cons [where ns = ns' and c = "c \<or> x = OptDryRun"]
      by (simp add: consume_dry_run_upd split: sum.splits)
  qed
qed

lemma consume_dry_run_field:
  "consume x ns = Inr ns' \<Longrightarrow> ns_dry_run ns' = (ns_dry_run ns \<or> x = OptDryRun)"
  by (cases x) (auto split: if_splits)

lemma consume_removeAll_dry_run:
  "consume_all (removeAll OptDryRun xs) ns =
     (case consume_all xs ns of
        Inl err \<Rightarrow> Inl err
      | Inr a \<Rightarrow> Inr (a\<lparr>ns_dry_run := ns_dry_run ns\<rparr>))"
proof (induction xs arbitrary: ns)
  case Nil
  then show ?case by simp
next
  case (Cons x xs)
  show ?case
  proof (cases "x = OptDryRun")
    case True
    have "ns\<lparr>ns_dry_run := True\<rparr>\<lparr>ns_dry_run := ns_dry_run ns\<rparr> = ns" by simp
    then have "consume_all xs ns =
        (case consume_all xs (ns\<lparr>ns_dry_run := True\<rparr>) of
           Inl err \<Rightarrow> Inl err
         | Inr a \<Rightarrow>
             Inr (a\<lparr>ns_dry_run := (ns_dry_run ns \<or> OptDryRun \<in> set xs)\<rparr>))"
      using consume_all_dry_run_upd
          [where xs = xs and ns = "ns\<lparr>ns_dry_run := True\<rparr>" and c = "ns_dry_run ns"]
      by simp
    then show ?thesis
      using True Cons [of ns]
      by (auto split: sum.splits)
  next
    case False
    then show ?thesis
      using Cons consume_dry_run_field [of x ns]
      by (cases "consume x ns") (auto split: sum.splits)
  qed
qed

subsection \<open>What the phases read\<close>

text \<open>A phase function of the table returns normally after one INFO record.\<close>

lemma phase_in_table:
  assumes "(name, fn) \<in> set PHASES"
  shows "\<exists>m as. \<forall>ctx w. fn ctx w = (None, logging_info m (as (limit ctx)) w)"
proof -
  have "fn = phase_precheck \<or> fn = phase_storage \<or> fn = phase_agg \<or>
        fn = phase_raid \<or> fn = phase_reexport \<or> fn = phase_verify"
    using assms by (auto simp: PHASES_def)
  moreover have "\<exists>m as. \<forall>ctx w. phase_precheck ctx w = (None, logging_info m (as (limit ctx)) w)"
    by (rule exI [of _ "''precheck phase for hosts: %s''"],
        rule exI [of _ "\<lambda>l. [case l of None \<Rightarrow> AStr ''all''
                               | Some hs \<Rightarrow> if hs = [] then AStr ''all'' else AList hs]"])
       (simp add: phase_precheck_def limit_or_all_def)
  moreover have "\<exists>m as. \<forall>ctx w. phase_storage ctx w = (None, logging_info m (as (limit ctx)) w)"
    by (rule exI [of _ "''storage_export phase''"], rule exI [of _ "\<lambda>l. []"])
       (simp add: phase_storage_def)
  moreover have "\<exists>m as. \<forall>ctx w. phase_agg ctx w = (None, logging_info m (as (limit ctx)) w)"
    by (rule exI [of _ "''aggregator_connect phase''"], rule exI [of _ "\<lambda>l. []"])
       (simp add: phase_agg_def)
  moreover have "\<exists>m as. \<forall>ctx w. phase_raid ctx w = (None, logging_info m (as (limit ctx)) w)"
    by (rule exI [of _ "''opus_raid phase''"], rule exI [of _ "\<lambda>l. []"])
       (simp add: phase_raid_def)
  moreover have "\<exists>m as. \<forall>ctx w. phase_reexport ctx w = (None, logging_info m (as (limit ctx)) w)"
    by (rule exI [of _ "''reexport phase''"], rule exI [of _ "\<lambda>l. []"])
       (simp add: phase_reexport_def)
  moreover have "\<exists>m as. \<forall>ctx w. phase_verify ctx w = (None, logging_info m (as (limit ctx)) w)"
    by (rule exI [of _ "''verify phase''"], rule exI [of _ "\<lambda>l. []"])
       (simp add: phase_verify_def)
  ultimately show ?thesis by blast
qed

lemma run_phases_table:
  assumes "\<forall>fn \<in> set fns. \<exists>name. (name, fn) \<in> set PHASES"
  shows "run_phases fns (ctx\<lparr>dry_run := b\<rparr>) w = run_phases fns ctx w"
  using assms
proof (induction fns arbitrary: w)
  case Nil
  then show ?case by simp
next
  case (Cons fn fns)
  then obtain name where "(name, fn) \<in> set PHASES" by auto
  then obtain m as where fn: "\<And>ctx w. fn ctx w = (None, logging_info m (as (limit ctx)) w)"
    using phase_in_table by blast
  from Cons have "\<forall>fn \<in> set fns. \<exists>name. (name, fn) \<in> set PHASES" by simp
  from Cons.IH [OF this, of "logging_info m (as (limit ctx)) w"] show ?case
    by (simp add: fn)
qed

text \<open>No phase function of the table reads \<open>dry_run\<close>.\<close>

lemma dispatch_dry_run:
  "dispatch a (ctx\<lparr>dry_run := b\<rparr>) w = dispatch a ctx w"
proof -
  have all: "\<forall>fn \<in> set (map snd PHASES). \<exists>name. (name, fn) \<in> set PHASES"
    by auto
  note run = run_phases_table [OF all, where ctx = ctx and b = b and w = w]
  have sel: "fn (ctx\<lparr>dry_run := b\<rparr>) w = fn ctx w"
    if "map_of PHASES k = Some fn" for k fn
  proof -
    from that have "(k, fn) \<in> set PHASES" by (rule map_of_SomeD)
    then obtain m as where "\<And>ctx w. fn ctx w = (None, logging_info m (as (limit ctx)) w)"
      using phase_in_table by blast
    then show ?thesis by simp
  qed
  show ?thesis
    using run sel by (auto simp: dispatch_def split: option.splits)
qed

subsection \<open>Teardown and dry run\<close>

lemma dispatch_ns_flags [simp]:
  "dispatch (a\<lparr>ns_teardown := b\<rparr>) ctx w = dispatch a ctx w"
  "dispatch (a\<lparr>ns_dry_run := b\<rparr>) ctx w = dispatch a ctx w"
  by (simp_all add: dispatch_def)

lemma make_context_flags [simp]:
  "make_context cfg (a\<lparr>ns_teardown := b\<rparr>) = make_context cfg a"
  "make_context cfg (a\<lparr>ns_dry_run := b\<rparr>) = (make_context cfg a)\<lparr>dry_run := b\<rparr>"
  by (simp_all add: make_context_def limit_of_def)



text \<open>
  The flag \<open>--dry-run\<close> is stored in the context and read by nothing: a run with
  it ends as the same run without it does.
\<close>

lemma dry_run_flag_ignored:
  "main e argv w = main e (removeAll OptDryRun argv) w"
proof (cases "consume_all argv defaults")
  case (Inl err)
  then have "consume_all (removeAll OptDryRun argv) defaults = Inl err"
    by (simp add: consume_removeAll_dry_run)
  with Inl show ?thesis by (simp add: main_def parse_args_def)
next
  case (Inr a)
  have rm: "consume_all (removeAll OptDryRun argv) defaults =
            Inr (a\<lparr>ns_dry_run := False\<rparr>)"
    using Inr by (simp add: consume_removeAll_dry_run defaults_def)
  show ?thesis
  proof (cases "ns_config a")
    case None
    with Inr rm show ?thesis by (simp add: main_def parse_args_def)
  next
    case (Some p)
    show ?thesis
    proof (cases "load_config e p")
      case (Inl err)
      with Some Inr rm show ?thesis by (simp add: main_def parse_args_def)
    next
      case cfg: (Inr cfg)
      obtain r w2 where
        d: "dispatch a (make_context cfg a) (setup_logging (ns_verbose a) w) = (r, w2)"
        by (cases "dispatch a (make_context cfg a) (setup_logging (ns_verbose a) w)")
      show ?thesis
        using Some Inr rm cfg d
        by (cases r) (simp_all add: main_def parse_args_def dispatch_dry_run)
    qed
  qed
qed

subsection \<open>Selecting one phase\<close>

lemma consume_phase_key:
  "consume x ns = Inr ns' \<Longrightarrow> ns_phase ns' = Some k \<Longrightarrow>
   ns_phase ns = Some k \<or> k \<in> set (map fst PHASES)"
  by (cases x) (force split: if_splits)+

lemma consume_all_phase_key:
  "consume_all xs ns = Inr a \<Longrightarrow> ns_phase a = Some k \<Longrightarrow>
   ns_phase ns = Some k \<or> k \<in> set (map fst PHASES)"
proof (induction xs arbitrary: ns)
  case Nil
  then show ?case by simp
next
  case (Cons x xs)
  then show ?case
    by (cases "consume x ns") (auto dest: consume_phase_key)
qed

lemma parse_phase_key:
  assumes "parse_args argv = Inr a" and "ns_phase a = Some k"
  shows "k \<in> set (map fst PHASES)"
proof -
  from assms(1) have "consume_all argv defaults = Inr a"
    by (auto simp: parse_args_def split: sum.splits if_splits)
  from consume_all_phase_key [OF this assms(2)] show ?thesis
    by (simp add: defaults_def)
qed

text \<open>A run of one selected phase from a fresh process, in full.\<close>

lemma main_selected_start:
  assumes "parse_args argv = Inr a" and "ns_config a = Some p"
    and "load_config e p = Inr cfg"
    and "ns_phase a = Some k" and "k \<noteq> []" and "map_of PHASES k = Some fn"
    and "\<And>w. fn (make_context cfg a) w = (None, logging_info m as w)"
  shows "main e argv process_start =
   (None,
    \<lparr>root_level = (if ns_verbose a then DEBUG else INFO),
     handlers = [(Console, if \<not> ns_verbose a then INFO else DEBUG), (JsonlFile, DEBUG)],
     emitted = concat (map (\<lambda>r. [(Console, r), (JsonlFile, r)])
       ([\<lparr>level = INFO, msg = m, args = as\<rparr>] @
        (if ns_teardown a
         then [\<lparr>level = WARNING, msg = ''teardown mode is not yet implemented'',
                args = []\<rparr>]
         else [])))\<rparr>)"
  using assms
  by (simp add: main_valid dispatch_def setup_start info_after_setup warning_after_setup)

text \<open>
  Claim C4, as stated: a selector set to a phase name runs that phase alone, and
  without a selector the phases run in the order of the run direction.  The
  selector \<open>opus_raid\<close> is refused by the parser and nothing runs; and a teardown
  run without selector calls the phases in forward order.
\<close>

theorem phase_selector_counterexample:
  "main site [OptConfig ''fabric.json'', OptPhase ''opus_raid''] process_start =
     (Some (ArgparseError (InvalidChoice ''--phase'' ''opus_raid'')), process_start) \<and>
   map msg (records_of JsonlFile
     (snd (main site [OptVerbose, OptTeardown, OptConfig ''fabric.json''] process_start))) =
     [''precheck phase for hosts: %s'', ''storage_export phase'',
      ''aggregator_connect phase'', ''opus_raid phase'',
      ''reexport phase'', ''verify phase'',
      ''teardown mode is not yet implemented'']"
proof -
  have "parse_args [OptVerbose, OptTeardown, OptConfig ''fabric.json''] =
          Inr (defaults\<lparr>ns_config := Some ''fabric.json'', ns_verbose := True,
                        ns_teardown := True\<rparr>)"
    by (simp add: parse_args_def defaults_def)
  then have "map msg (records_of JsonlFile
     (snd (main site [OptVerbose, OptTeardown, OptConfig ''fabric.json''] process_start))) =
     [''precheck phase for hosts: %s'', ''storage_export phase'',
      ''aggregator_connect phase'', ''opus_raid phase'',
      ''reexport phase'', ''verify phase'',
      ''teardown mode is not yet implemented'']"
    by (simp add: main_all_start [where p = "''fabric.json''" and cfg = fabric_json]
        load_fabric defaults_def records_of_def)
  moreover have
    "main site [OptConfig ''fabric.json'', OptPhase ''opus_raid''] process_start =
     (Some (ArgparseError (InvalidChoice ''--phase'' ''opus_raid'')), process_start)"
    by (simp add: main_def parse_args_def defaults_def PHASES_def)
  ultimately show ?thesis by simp
qed

text \<open>
  Claim C4, amended.  The selector takes the keys of the table: precheck, storage,
  agg, raid, reexport, verify.  In a run whose command line parses and whose
  configuration loads, a selector set to a key runs the phase of that key and no
  other; without a selector the six phases run in forward order, whatever the
  direction.  A teardown run then logs its warning.
\<close>

theorem selected_phase_runs_alone:
  assumes "parse_args argv = Inr a" and "ns_config a = Some p"
    and "load_config e p = Inr cfg"
  shows "fst (main e argv process_start) = None \<and>
         map msg (records_of Console (snd (main e argv process_start))) =
           (case ns_phase a of
              None \<Rightarrow>
                [''precheck phase for hosts: %s'', ''storage_export phase'',
                 ''aggregator_connect phase'', ''opus_raid phase'',
                 ''reexport phase'', ''verify phase'']
            | Some k \<Rightarrow>
                map snd (filter (\<lambda>entry. fst entry = k)
                  [(''precheck'', ''precheck phase for hosts: %s''),
                   (''storage'', ''storage_export phase''),
                   (''agg'', ''aggregator_connect phase''),
                   (''raid'', ''opus_raid phase''),
                   (''reexport'', ''reexport phase''),
                   (''verify'', ''verify phase'')])) @
           (if ns_teardown a then [''teardown mode is not yet implemented''] else [])"
proof (cases "ns_phase a")
  case None
  with assms show ?thesis by (simp add: main_all_start records_of_def)
next
  case (Some k)
  with assms(1) have "k \<in> set (map fst PHASES)" by (rule parse_phase_key)
  then have "k = ''precheck'' \<or> k = ''storage'' \<or> k = ''agg'' \<or> k = ''raid'' \<or>
             k = ''reexport'' \<or> k = ''verify''"
    by (simp add: PHASES_def)
  then show ?thesis
  proof (elim disjE)
    assume 1: "k = ''precheck''"
    with Some assms show ?thesis
      by (simp add: records_of_def PHASES_def phase_precheck_def
          main_selected_start [where k = k and fn = phase_precheck
            and m = "''precheck phase for hosts: %s''"
            and as = "[limit_or_all (make_context cfg a)]"])
  next
    assume 2: "k = ''storage''"
    with Some assms show ?thesis
      by (simp add: records_of_def PHASES_def phase_storage_def
          main_selected_start [where k = k and fn = phase_storage
            and m = "''storage_export phase''" and as = "[]"])
  next
    assume 3: "k = ''agg''"
    with Some assms show ?thesis
      by (simp add: records_of_def PHASES_def phase_agg_def
          main_selected_start [where k = k and fn = phase_agg
            and m = "''aggregator_connect phase''" and as = "[]"])
  next
    assume 4: "k = ''raid''"
    with Some assms show ?thesis
      by (simp add: records_of_def PHASES_def phase_raid_def
          main_selected_start [where k = k and fn = phase_raid
            and m = "''opus_raid phase''" and as = "[]"])
  next
    assume 5: "k = ''reexport''"
    with Some assms show ?thesis
      by (simp add: records_of_def PHASES_def phase_reexport_def
          main_selected_start [where k = k and fn = phase_reexport
            and m = "''reexport phase''" and as = "[]"])
  next
    assume 6: "k = ''verify''"
    with Some assms show ?thesis
      by (simp add: records_of_def PHASES_def phase_verify_def
          main_selected_start [where k = k and fn = phase_verify
            and m = "''verify phase''" and as = "[]"])
  qed
qed

theorem selected_phase_runs_alone_witness:
  "parse_args [OptPhase ''agg'', OptConfig ''fabric.json''] =
     Inr (defaults\<lparr>ns_config := Some ''fabric.json'', ns_phase := Some ''agg''\<rparr>) \<and>
   load_config site ''fabric.json'' = Inr fabric_json \<and>
   fst (main site [OptPhase ''agg'', OptConfig ''fabric.json''] process_start) = None \<and>
   map msg (records_of Console
     (snd (main site [OptPhase ''agg'', OptConfig ''fabric.json''] process_start))) =
     [''aggregator_connect phase'']"
  using selected_phase_runs_alone
    [of "[OptPhase ''agg'', OptConfig ''fabric.json'']"
        "defaults\<lparr>ns_config := Some ''fabric.json'', ns_phase := Some ''agg''\<rparr>"
        "''fabric.json''" site fabric_json]
  by (simp add: parse_args_def defaults_def load_fabric PHASES_def)

subsection \<open>The host filter\<close>

lemma split_comma_not_Nil: "split_comma s \<noteq> []"
  by (induction s) (auto split: list.splits)

lemma limit_given:
  assumes "ns_limit a = Some l" and "l \<noteq> []"
  shows "limit_or_all (make_context cfg a) = AList (split_comma l)"
  using assms
  by (simp add: limit_or_all_def make_context_def limit_of_def split_comma_not_Nil)

text \<open>
  Claim C5, as stated: a host filter that names a host absent from the
  configuration fails with a ScopeError and no phase executes.  \<open>hostX\<close> is no
  host of \<open>fabric.json\<close>, yet \<open>--limit hostX\<close> runs all six phases without error.
\<close>

theorem unknown_host_counterexample:
  "\<not> List.member (spec_host_ids fabric_json) ''hostX'' \<and>
   fst (main site [OptConfig ''fabric.json'', OptLimit ''hostX''] process_start) = None \<and>
   records_of Console
     (snd (main site [OptConfig ''fabric.json'', OptLimit ''hostX''] process_start)) =
     [\<lparr>level = INFO, msg = ''precheck phase for hosts: %s'', args = [AList [''hostX'']]\<rparr>,
      \<lparr>level = INFO, msg = ''storage_export phase'', args = []\<rparr>,
      \<lparr>level = INFO, msg = ''aggregator_connect phase'', args = []\<rparr>,
      \<lparr>level = INFO, msg = ''opus_raid phase'', args = []\<rparr>,
      \<lparr>level = INFO, msg = ''reexport phase'', args = []\<rparr>,
      \<lparr>level = INFO, msg = ''verify phase'', args = []\<rparr>]"
proof -
  have "parse_args [OptConfig ''fabric.json'', OptLimit ''hostX''] =
          Inr (defaults\<lparr>ns_config := Some ''fabric.json'', ns_limit := Some ''hostX''\<rparr>)"
    by (simp add: parse_args_def defaults_def)
  moreover have "\<not> List.member (spec_host_ids fabric_json) ''hostX''"
    by (simp add: spec_host_ids_def fabric_json_def)
  ultimately show ?thesis
    by (simp add: main_all_start [where p = "''fabric.json''" and cfg = fabric_json]
        load_fabric defaults_def records_of_def limit_or_all_def make_context_def
        limit_of_def)
qed

text \<open>
  Claim C5, amended.  The host filter is not checked against the configuration.
  For every run whose command line parses with a non-empty \<open>--limit\<close> and no
  selector and whose configuration loads, whatever hosts the filter names, the
  run returns normally, the filter split at the commas is what precheck logs, and
  all six phases execute.
\<close>

theorem limit_not_validated:
  assumes "parse_args argv = Inr a" and "ns_config a = Some p"
    and "load_config e p = Inr cfg"
    and "ns_phase a = None" and "ns_limit a = Some l" and "l \<noteq> []"
  shows "fst (main e argv process_start) = None \<and>
         records_of Console (snd (main e argv process_start)) =
           [\<lparr>level = INFO, msg = ''precheck phase for hosts: %s'',
             args = [AList (split_comma l)]\<rparr>,
            \<lparr>level = INFO, msg = ''storage_export phase'', args = []\<rparr>,
            \<lparr>level = INFO, msg = ''aggregator_connect phase'', args = []\<rparr>,
            \<lparr>level = INFO, msg = ''opus_raid phase'', args = []\<rparr>,
            \<lparr>level = INFO, msg = ''reexport phase'', args = []\<rparr>,
            \<lparr>level = INFO, msg = ''verify phase'', args = []\<rparr>] @
           (if ns_teardown a
            then [\<lparr>level = WARNING, msg = ''teardown mode is not yet implemented'',
                   args = []\<rparr>]
            else [])"
  using assms by (simp add: main_all_start records_of_def limit_given)

theorem limit_not_validated_witness:
  "parse_args [OptLimit ''hostX,sn1'', OptConfig ''fabric.json''] =
     Inr (defaults\<lparr>ns_config := Some ''fabric.json'', ns_limit := Some ''hostX,sn1''\<rparr>) \<and>
   load_config site ''fabric.json'' = Inr fabric_json \<and>
   fst (main site [OptLimit ''hostX,sn1'', OptConfig ''fabric.json''] process_start) = None \<and>
   records_of Console
     (snd (main site [OptLimit ''hostX,sn1'', OptConfig ''fabric.json''] process_start)) =
     [\<lparr>level = INFO, msg = ''precheck phase for hosts: %s'',
       args = [AList [''hostX'', ''sn1'']]\<rparr>,
      \<lparr>level = INFO, msg = ''storage_export phase'', args = []\<rparr>,
      \<lparr>level = INFO, msg = ''aggregator_connect phase'', args = []\<rparr>,
      \<lparr>level = INFO, msg = ''opus_raid phase'', args = []\<rparr>,
      \<lparr>level = INFO, msg = ''reexport phase'', args = []\<rparr>,
      \<lparr>level = INFO, msg = ''verify phase'', args = []\<rparr>]"
  using limit_not_validated
    [of "[OptLimit ''hostX,sn1'', OptConfig ''fabric.json'']"
        "defaults\<lparr>ns_config := Some ''fabric.json'', ns_limit := Some ''hostX,sn1''\<rparr>"
        "''fabric.json''" site fabric_json "''hostX,sn1''"]
  by (simp add: parse_args_def defaults_def load_fabric)

subsection \<open>Rejecting a configuration\<close>

lemma sorted_by_path_mset:
  "sorted_by_path es = Some errs \<Longrightarrow> mset errs = mset es"
  by (auto simp: sorted_by_path_def split: if_splits)

lemma load_config_invalid:
  assumes "read_text e p = Some t" and "json_loads e t = Some d"
    and "iter_errors e d \<noteq> []" and "sorted_by_path (iter_errors e d) = Some errs"
  shows "load_config e p = Inl (ValidationError (join ''; '' (map error_line errs)))"
proof -
  from assms(4) have "mset errs = mset (iter_errors e d)"
    by (rule sorted_by_path_mset)
  with assms(3) have "errs \<noteq> []" by auto
  with assms show ?thesis by (simp add: load_config_def)
qed

lemma load_config_valid:
  assumes "read_text e p = Some t" and "json_loads e t = Some d"
    and "iter_errors e d = []"
  shows "load_config e p = Inr d"
  using assms by (simp add: load_config_def sorted_by_path_def)

lemma load_config_rejects:
  assumes "read_text e p = Some t" and "json_loads e t = Some d"
    and "iter_errors e d \<noteq> []"
  shows "\<exists>err. load_config e p = Inl err"
proof (cases "sorted_by_path (iter_errors e d)")
  case None
  with assms show ?thesis by (simp add: load_config_def)
next
  case (Some errs)
  with assms show ?thesis using load_config_invalid by blast
qed

lemma main_rejected:
  assumes "parse_args argv = Inr a" and "ns_config a = Some p"
    and "load_config e p = Inl err"
  shows "main e argv w = (Some err, setup_logging (ns_verbose a) w)"
  using assms by (simp add: main_def Let_def)

lemma emitted_setup_start [simp]: "emitted (setup_logging v process_start) = []"
  by (simp add: setup_start)

text \<open>A run whose command line parses and whose configuration loads returns
  normally and has written to the console.\<close>

lemma main_accepted:
  assumes "parse_args argv = Inr a" and "ns_config a = Some p"
    and "load_config e p = Inr cfg"
  shows "fst (main e argv process_start) = None \<and>
         records_of Console (snd (main e argv process_start)) \<noteq> []"
proof (cases "ns_phase a")
  case None
  with assms show ?thesis by (simp add: main_all_start records_of_def)
next
  case (Some k)
  with assms(1) have key: "k \<in> set (map fst PHASES)" by (rule parse_phase_key)
  then have "k \<noteq> []" by (auto simp: PHASES_def)
  from key obtain fn where fn: "map_of PHASES k = Some fn"
    by (cases "map_of PHASES k") (auto simp: map_of_eq_None_iff)
  then have "(k, fn) \<in> set PHASES" by (rule map_of_SomeD)
  then obtain m as where
    "\<And>ctx w. fn ctx w = (None, logging_info m (as (limit ctx)) w)"
    using phase_in_table by blast
  then have "\<And>w. fn (make_context cfg a) w =
               (None, logging_info m (as (limit (make_context cfg a))) w)"
    by simp
  from main_selected_start [OF assms Some \<open>k \<noteq> []\<close> fn this] show ?thesis
    by (simp add: records_of_def)
qed

text \<open>
  Claim C8, as stated: an invalid scope aborts the run before anything is
  touched and every violation is reported.  Neither \<open>hostX\<close> nor \<open>hostY\<close> is a
  host of \<open>fabric.json\<close>, yet the run with \<open>--limit hostX,hostY --phase storage\<close>
  is not aborted and reports nothing: the storage phase executes.
\<close>

theorem invalid_scope_counterexample:
  "\<not> List.member (spec_host_ids fabric_json) ''hostX'' \<and>
   \<not> List.member (spec_host_ids fabric_json) ''hostY'' \<and>
   main site [OptConfig ''fabric.json'', OptLimit ''hostX,hostY'', OptPhase ''storage'']
     process_start =
     (None,
      \<lparr>root_level = INFO, handlers = [(Console, INFO), (JsonlFile, DEBUG)],
       emitted =
         [(Console, \<lparr>level = INFO, msg = ''storage_export phase'', args = []\<rparr>),
          (JsonlFile, \<lparr>level = INFO, msg = ''storage_export phase'', args = []\<rparr>)]\<rparr>)"
proof -
  have "parse_args [OptConfig ''fabric.json'', OptLimit ''hostX,hostY'', OptPhase ''storage''] =
          Inr (defaults\<lparr>ns_config := Some ''fabric.json'', ns_limit := Some ''hostX,hostY'',
                        ns_phase := Some ''storage''\<rparr>)"
    by (simp add: parse_args_def defaults_def PHASES_def)
  moreover have "\<not> List.member (spec_host_ids fabric_json) ''hostX''"
    and "\<not> List.member (spec_host_ids fabric_json) ''hostY''"
    by (simp_all add: spec_host_ids_def fabric_json_def)
  ultimately show ?thesis
    by (simp add: main_selected_start
          [where p = "''fabric.json''" and cfg = fabric_json and k = "''storage''"
             and fn = phase_storage and m = "''storage_export phase''" and as = "[]"]
        load_fabric defaults_def PHASES_def phase_storage_def)
qed

text \<open>
  Claim C8, amended.  A configuration that violates the schema aborts the run
  before any phase is called: at the abort logging is set up, nothing has been
  logged and nothing else has happened.  The one ValidationError raised lists
  every violation that the validator reports, in the order of their paths.
  (A host filter is not validated and aborts nothing.)
\<close>

theorem invalid_config_reports_all:
  assumes "parse_args argv = Inr a" and "ns_config a = Some p"
    and "read_text e p = Some t" and "json_loads e t = Some d"
    and "iter_errors e d \<noteq> []"
    and "sorted_by_path (iter_errors e d) = Some errs"
  shows "fst (main e argv process_start) =
           Some (ValidationError (join ''; '' (map error_line errs))) \<and>
         mset errs = mset (iter_errors e d) \<and>
         emitted (snd (main e argv process_start)) = [] \<and>
         snd (main e argv process_start) = setup_logging (ns_verbose a) process_start"
proof -
  have "load_config e p = Inl (ValidationError (join ''; '' (map error_line errs)))"
    using assms(3-6) by (rule load_config_invalid)
  with assms(1,2) have "main e argv process_start =
      (Some (ValidationError (join ''; '' (map error_line errs))),
       setup_logging (ns_verbose a) process_start)"
    by (rule main_rejected)
  moreover have "mset errs = mset (iter_errors e d)"
    using assms(6) by (rule sorted_by_path_mset)
  ultimately show ?thesis by simp
qed

lemma sorted_broken:
  "sorted_by_path broken_errors =
     Some [\<lparr>path = [], message = ''raidGroups is a required property''\<rparr>,
           \<lparr>path = [Key ''hosts'', Index 0], message = ''id is a required property''\<rparr>,
           \<lparr>path = [Key ''hosts'', Index 1, Key ''role''],
            message = ''tape is not one of storage, aggregator, both''\<rparr>]"
  by (simp add: sorted_by_path_def broken_errors_def)

lemma broken_message:
  "join ''; '' (map error_line
     [\<lparr>path = [], message = ''raidGroups is a required property''\<rparr>,
      \<lparr>path = [Key ''hosts'', Index 0], message = ''id is a required property''\<rparr>,
      \<lparr>path = [Key ''hosts'', Index 1, Key ''role''],
       message = ''tape is not one of storage, aggregator, both''\<rparr>]) =
   '': raidGroups is a required property; hosts/0: id is a required property; hosts/1/role: tape is not one of storage, aggregator, both''"
  by (simp add: error_line_def str_int_def str_nat.simps)

theorem invalid_config_reports_all_witness:
  "parse_args [OptConfig ''broken.json''] = Inr (defaults\<lparr>ns_config := Some ''broken.json''\<rparr>) \<and>
   read_text site ''broken.json'' = Some ''text of broken.json'' \<and>
   json_loads site ''text of broken.json'' = Some broken_json \<and>
   iter_errors site broken_json = broken_errors \<and>
   broken_errors \<noteq> [] \<and>
   fst (main site [OptConfig ''broken.json''] process_start) =
     Some (ValidationError
       '': raidGroups is a required property; hosts/0: id is a required property; hosts/1/role: tape is not one of storage, aggregator, both'') \<and>
   emitted (snd (main site [OptConfig ''broken.json''] process_start)) = []"
proof -
  have site: "read_text site ''broken.json'' = Some ''text of broken.json''"
    "json_loads site ''text of broken.json'' = Some broken_json"
    "iter_errors site broken_json = broken_errors"
    by (simp_all add: site_def)
  have parse: "parse_args [OptConfig ''broken.json''] =
                 Inr (defaults\<lparr>ns_config := Some ''broken.json''\<rparr>)"
    by (simp add: parse_args_def defaults_def)
  have some: "broken_errors \<noteq> []" by (simp add: broken_errors_def)
  show ?thesis
    using invalid_config_reports_all
      [of "[OptConfig ''broken.json'']" "defaults\<lparr>ns_config := Some ''broken.json''\<rparr>"
          "''broken.json''" site "''text of broken.json''" broken_json
          "[\<lparr>path = [], message = ''raidGroups is a required property''\<rparr>,
            \<lparr>path = [Key ''hosts'', Index 0], message = ''id is a required property''\<rparr>,
            \<lparr>path = [Key ''hosts'', Index 1, Key ''role''],
             message = ''tape is not one of storage, aggregator, both''\<rparr>]"]
      site parse some sorted_broken broken_message
    by (simp add: defaults_def)
qed

text \<open>
  Claim C9, as stated: a configuration with a reference that resolves to no
  entity is rejected before any phase runs.  The RAID group of \<open>dangling.json\<close>
  names the member \<open>sn9\<close>, which is no host of the document; the validator of
  the site reports nothing for it, and the run calls all six phases.
\<close>

theorem dangling_reference_counterexample:
  "spec_dangling_refs dangling_json = [''sn9''] \<and>
   iter_errors site dangling_json = [] \<and>
   fst (main site [OptConfig ''dangling.json''] process_start) = None \<and>
   map msg (records_of Console
     (snd (main site [OptConfig ''dangling.json''] process_start))) =
     [''precheck phase for hosts: %s'', ''storage_export phase'',
      ''aggregator_connect phase'', ''opus_raid phase'',
      ''reexport phase'', ''verify phase'']"
proof -
  have "parse_args [OptConfig ''dangling.json''] =
          Inr (defaults\<lparr>ns_config := Some ''dangling.json''\<rparr>)"
    by (simp add: parse_args_def defaults_def)
  moreover have "spec_dangling_refs dangling_json = [''sn9'']"
    by (simp add: spec_dangling_refs_def spec_member_refs_def spec_host_ids_def
        dangling_json_def)
  moreover have "iter_errors site dangling_json = []"
    by (simp add: site_def dangling_json_def broken_json_def)
  ultimately show ?thesis
    by (simp add: main_all_start [where p = "''dangling.json''" and cfg = dangling_json]
        load_dangling defaults_def records_of_def)
qed

text \<open>
  Claim C9, amended.  Before any phase runs, the engine rejects a readable JSON
  configuration exactly when the schema validator reports a violation for it:
  then the run ends in an error and no phase has been called; otherwise the run
  returns normally and phases have been called.  The engine resolves no
  reference itself.
\<close>

theorem config_rejected_iff_schema_errors:
  assumes "parse_args argv = Inr a" and "ns_config a = Some p"
    and "read_text e p = Some t" and "json_loads e t = Some d"
  shows "if iter_errors e d = []
         then fst (main e argv process_start) = None \<and>
              records_of Console (snd (main e argv process_start)) \<noteq> []
         else fst (main e argv process_start) \<noteq> None \<and>
              emitted (snd (main e argv process_start)) = []"
proof (cases "iter_errors e d = []")
  case True
  with assms(3,4) have "load_config e p = Inr d" by (rule load_config_valid)
  from main_accepted [OF assms(1,2) this] True show ?thesis by simp
next
  case False
  with assms(3,4) obtain err where "load_config e p = Inl err"
    using load_config_rejects by blast
  from main_rejected [OF assms(1,2) this, of process_start] False show ?thesis by simp
qed

theorem config_rejected_iff_schema_errors_witness:
  "parse_args [OptConfig ''dangling.json'', OptDryRun] =
     Inr (defaults\<lparr>ns_config := Some ''dangling.json'', ns_dry_run := True\<rparr>) \<and>
   read_text site ''dangling.json'' = Some ''text of dangling.json'' \<and>
   json_loads site ''text of dangling.json'' = Some dangling_json \<and>
   iter_errors site dangling_json = [] \<and>
   fst (main site [OptConfig ''dangling.json'', OptDryRun] process_start) = None \<and>
   records_of Console
     (snd (main site [OptConfig ''dangling.json'', OptDryRun] process_start)) \<noteq> []"
proof -
  have site: "read_text site ''dangling.json'' = Some ''text of dangling.json''"
    "json_loads site ''text of dangling.json'' = Some dangling_json"
    "iter_errors site dangling_json = []"
    by (simp_all add: site_def dangling_json_def broken_json_def)
  have parse: "parse_args [OptConfig ''dangling.json'', OptDryRun] =
     Inr (defaults\<lparr>ns_config := Some ''dangling.json'', ns_dry_run := True\<rparr>)"
    by (simp add: parse_args_def defaults_def)
  show ?thesis
    using config_rejected_iff_schema_errors
      [of "[OptConfig ''dangling.json'', OptDryRun]"
          "defaults\<lparr>ns_config := Some ''dangling.json'', ns_dry_run := True\<rparr>"
          "''dangling.json''" site "''text of dangling.json''" dangling_json]
      site parse
    by (simp add: defaults_def)
qed

subsection \<open>A selector that is no key of the table\<close>

text \<open>
  The parser refuses a \<open>--phase\<close> value outside the keys of \<open>PHASES\<close>: the run
  ends there, before logging is set up and before the configuration is read.
\<close>

lemma consume_all_invalid_choice:
  assumes "OptPhase k \<in> set xs" and "k \<notin> set (map fst PHASES)"
  shows "\<exists>k'. consume_all xs ns = Inl (ArgparseError (InvalidChoice ''--phase'' k'))"
  using assms
proof (induction xs arbitrary: ns)
  case Nil
  then show ?case by simp
next
  case (Cons x xs)
  show ?case
  proof (cases "consume x ns")
    case (Inl err)
    then have "\<exists>k'. err = ArgparseError (InvalidChoice ''--phase'' k')"
      by (cases x) (auto split: if_splits)
    with Inl show ?thesis by auto
  next
    case (Inr ns')
    then have "x \<noteq> OptPhase k"
      using Cons.prems(2) by auto
    with Cons.prems have "OptPhase k \<in> set xs" by simp
    from Cons.IH [OF this Cons.prems(2), of ns'] Inr show ?thesis by simp
  qed
qed

lemma unknown_phase_rejected:
  assumes "OptPhase k \<in> set argv" and "k \<notin> set (map fst PHASES)"
  shows "\<exists>k'. main e argv w = (Some (ArgparseError (InvalidChoice ''--phase'' k')), w)"
proof -
  from consume_all_invalid_choice [OF assms, of defaults] obtain k' where
    "consume_all argv defaults = Inl (ArgparseError (InvalidChoice ''--phase'' k'))"
    by blast
  then show ?thesis by (simp add: main_def parse_args_def)
qed

end
